theory Spec2Isabelle
  imports Complex_Main
begin

section \<open>Python primitives used by the entity models\<close>

text \<open>
  Exceptions are values. Every \<open>except Exception\<close> clause of the source catches each of
  these; \<open>OtherException\<close> stands for any further subclass of \<open>Exception\<close> that the
  Endpoint Client can raise (\<open>TableTennisAPIError\<close> and its subclasses, \<open>KeyError\<close> while a
  page is parsed, ...). The message of the \<open>ValueError\<close> raised by \<open>int()\<close> is abbreviated:
  the interpreter appends the \<open>repr\<close> of the literal.
\<close>

datatype error =
    ValueError string
  | IndexError
  | AttributeError string
  | ZeroDivisionError
  | OverflowError
  | OtherException string

text \<open>
  Strings are lists of 8-bit characters, read as the code points below 256. Among those,
  \<open>str.strip()\<close> and \<open>int()\<close> treat exactly the following as white space, and only
  \<open>0\<close> .. \<open>9\<close> as decimal digits.
\<close>

definition is_space :: "char \<Rightarrow> bool" where
  "is_space c \<longleftrightarrow> c \<in> set [CHR 0x09, CHR 0x0A, CHR 0x0B, CHR 0x0C, CHR 0x0D,
                          CHR 0x1C, CHR 0x1D, CHR 0x1E, CHR 0x1F, CHR 0x20, CHR 0x85, CHR 0xA0]"

definition py_strip :: "string \<Rightarrow> string" where
  "py_strip s = rev (dropWhile is_space (rev (dropWhile is_space s)))"

definition is_digit :: "char \<Rightarrow> bool" where
  "is_digit c \<longleftrightarrow> c \<in> set ''0123456789''"

definition digit_val :: "char \<Rightarrow> nat" where
  "digit_val c = of_char c - 48"

text \<open>\<open>s.split(sep)\<close> for a one-character separator: one more part than separators.\<close>

fun py_split :: "char \<Rightarrow> string \<Rightarrow> string list" where
  "py_split sep [] = [[]]"
| "py_split sep (c # cs) =
     (if c = sep then [] # py_split sep cs
      else (c # hd (py_split sep cs)) # tl (py_split sep cs))"

text \<open>
  The digits of a decimal literal: a digit, then digits each optionally preceded by a
  single underscore.
\<close>

fun digits_ok :: "string \<Rightarrow> bool"
  and after_digit :: "string \<Rightarrow> bool" where
  "digits_ok [] = False"
| "digits_ok (c # cs) = (is_digit c \<and> after_digit cs)"
| "after_digit [] = True"
| "after_digit (c # cs) = (if c = CHR ''_'' then digits_ok cs else is_digit c \<and> after_digit cs)"

definition int_max_str_digits :: nat where
  "int_max_str_digits = 4300"

definition nat_of_digits :: "string \<Rightarrow> nat" where
  "nat_of_digits ds = foldl (\<lambda>acc c. 10 * acc + digit_val c) 0 ds"

text \<open>
  \<open>int(s)\<close> in base 10: surrounding white space is dropped, one sign is allowed, and the
  interpreter's default limit on the number of digits applies. \<open>None\<close> is \<open>ValueError\<close>.
\<close>

definition py_int :: "string \<Rightarrow> int option" where
  "py_int s =
     (let t = py_strip s;
          neg = (t \<noteq> [] \<and> hd t = CHR ''-'');
          body = (if t \<noteq> [] \<and> (hd t = CHR ''+'' \<or> hd t = CHR ''-'') then tl t else t);
          ds = filter is_digit body
      in if digits_ok body \<and> length ds \<le> int_max_str_digits
         then Some (if neg then - int (nat_of_digits ds) else int (nat_of_digits ds))
         else None)"

text \<open>
  A float is the rational number it denotes. \<open>a / b\<close> on two ints raises
  \<open>ZeroDivisionError\<close> for \<open>b == 0\<close>; otherwise it is the exact quotient rounded to a
  float, or \<open>OverflowError\<close> when that is out of range. The rounding \<open>fl\<close> is a parameter
  (\<open>None\<close>: out of range).
\<close>

definition py_truediv :: "(rat \<Rightarrow> rat option) \<Rightarrow> int \<Rightarrow> int \<Rightarrow> error + rat" where
  "py_truediv fl a b =
     (if b = 0 then Inl ZeroDivisionError
      else case fl (rat_of_int a / rat_of_int b) of
             None \<Rightarrow> Inl OverflowError
           | Some q \<Rightarrow> Inr q)"

text \<open>
  A \<open>dict\<close> keeps its keys in insertion order; assigning to a key that is present replaces
  the value in place.
\<close>

fun dict_set :: "'k \<Rightarrow> 'v \<Rightarrow> ('k \<times> 'v) list \<Rightarrow> ('k \<times> 'v) list" where
  "dict_set k v [] = [(k, v)]"
| "dict_set k v ((k', v') # d) =
     (if k' = k then (k, v) # d else (k', v') # dict_set k v d)"

definition dict_keys :: "('k \<times> 'v) list \<Rightarrow> 'k list" where
  "dict_keys d = map fst d"

definition dict_values :: "('k \<times> 'v) list \<Rightarrow> 'v list" where
  "dict_values d = map snd d"

section \<open>Entity models (\<open>models.py\<close>)\<close>

type_synonym json_dict = "(string \<times> string) list"

type_synonym datetime = int

record Player =
  id_P :: string
  name :: string
  country_code :: "string option"
  image_id :: "string option"

text \<open>
  The detail view of an event. No operation modelled here reads it; the timeline and the
  extra block are left out.
\<close>

record Event =
  id_D :: string
  time_status_D :: string
  final_score :: string

text \<open>
  \<open>view_data\<close> and \<open>odds_data\<close> are the attributes \<open>_view_data\<close> and \<open>_odds_data\<close> that
  \<open>get_events_bulk\<close> attaches to an event after construction.
\<close>

record EventSummary =
  id_E :: string
  sport_id :: string
  time :: string
  time_status :: string
  league_id :: string
  league_name :: string
  league_country_code :: "string option"
  home_player :: Player
  away_player :: Player
  current_score :: string
  game_scores :: "(string \<times> json_dict) list"
  bet365_id :: "string option"
  view_data :: "Event list option"
  odds_data :: "json_dict option"

definition is_scheduled :: "EventSummary \<Rightarrow> bool" where
  "is_scheduled e \<longleftrightarrow> time_status e \<in> set [''0'', ''1'']"

definition is_live :: "EventSummary \<Rightarrow> bool" where
  "is_live e \<longleftrightarrow> time_status e = ''2''"

definition is_finished :: "EventSummary \<Rightarrow> bool" where
  "is_finished e \<longleftrightarrow> time_status e = ''3''"

definition int_literal_error :: error where
  "int_literal_error = ValueError ''invalid literal for int() with base 10''"

definition sets_score :: "EventSummary \<Rightarrow> error + int \<times> int" where
  "sets_score e =
     (if CHR ''-'' \<in> set (current_score e) then
        (case py_split CHR ''-'' (current_score e) of
           p0 # p1 # _ \<Rightarrow>
             (case py_int p0 of
                None \<Rightarrow> Inl int_literal_error
              | Some h \<Rightarrow>
                  (case py_int p1 of
                     None \<Rightarrow> Inl int_literal_error
                   | Some a \<Rightarrow> Inr (h, a)))
         | _ \<Rightarrow> Inl IndexError)
      else Inr (0, 0))"

definition is_winner :: "EventSummary \<Rightarrow> string \<Rightarrow> error + bool" where
  "is_winner e player_name =
     (if \<not> is_finished e then Inr False
      else case sets_score e of
             Inl err \<Rightarrow> Inl err
           | Inr (home_sets, away_sets) \<Rightarrow>
               if home_sets > away_sets then Inr (name (home_player e) = player_name)
               else if away_sets > home_sets then Inr (name (away_player e) = player_name)
               else Inr False)"

record PaginationInfo =
  page :: int
  per_page :: int
  total_P :: int

text \<open>\<open>//\<close> is floor division, as \<open>div\<close> on \<open>int\<close>, and raises for a zero divisor.\<close>

definition total_pages :: "PaginationInfo \<Rightarrow> error + int" where
  "total_pages p =
     (if per_page p = 0 then Inl ZeroDivisionError
      else Inr ((total_P p + per_page p - 1) div per_page p))"

definition has_next_page :: "PaginationInfo \<Rightarrow> error + bool" where
  "has_next_page p =
     (case total_pages p of Inl err \<Rightarrow> Inl err | Inr n \<Rightarrow> Inr (page p < n))"

definition has_previous_page :: "PaginationInfo \<Rightarrow> bool" where
  "has_previous_page p \<longleftrightarrow> page p > 1"

record APIResponse =
  results :: "EventSummary list"
  pagination :: "PaginationInfo option"

text \<open>
  What the interpreter and the platform contribute: \<open>datetime.fromtimestamp\<close> (local time
  zone; raises outside the platform's range), the iteration order of a \<open>set\<close> of strings
  (\<open>set_order\<close> maps the distinct elements in insertion order to the order of iteration),
  and the rounding of an exact quotient to a float.
\<close>

record runtime =
  fromtimestamp :: "int \<Rightarrow> error + datetime"
  set_order :: "string list \<Rightarrow> string list"
  float_round :: "rat \<Rightarrow> rat option"

definition event_datetime :: "runtime \<Rightarrow> EventSummary \<Rightarrow> error + datetime" where
  "event_datetime R e =
     (case py_int (time e) of
        None \<Rightarrow> Inl int_literal_error
      | Some t \<Rightarrow> fromtimestamp R t)"

record PlayerMatchHistory =
  player_name :: string
  matches :: "EventSummary list"
  h2h_records :: "(string \<times> EventSummary list) list"
  total_matches :: int
  win_count :: int
  loss_count :: int
  date_range_days :: int
  tournaments :: "string list"
  opponents :: "string list"

definition win_rate :: "runtime \<Rightarrow> PlayerMatchHistory \<Rightarrow> error + rat" where
  "win_rate R h =
     (if PlayerMatchHistory.total_matches h = 0 then Inr 0
      else py_truediv (float_round R) (win_count h) (PlayerMatchHistory.total_matches h))"

text \<open>\<open>sum(1 for match in matches if match.is_winner(player_name))\<close>, left to right.\<close>

fun count_wins :: "string \<Rightarrow> EventSummary list \<Rightarrow> error + int" where
  "count_wins pn [] = Inr 0"
| "count_wins pn (m # ms) =
     (case is_winner m pn of
        Inl err \<Rightarrow> Inl err
      | Inr won \<Rightarrow>
          (case count_wins pn ms of
             Inl err \<Rightarrow> Inl err
           | Inr n \<Rightarrow> Inr ((if won then 1 else 0) + n)))"

definition opponent_of :: "string \<Rightarrow> EventSummary \<Rightarrow> string" where
  "opponent_of pn m =
     (if name (home_player m) = pn then name (away_player m) else name (home_player m))"

definition history_from_matches ::
  "runtime \<Rightarrow> string \<Rightarrow> EventSummary list \<Rightarrow> (string \<times> EventSummary list) list \<Rightarrow> int
     \<Rightarrow> error + PlayerMatchHistory" where
  "history_from_matches R pn ms h2h days =
     (case count_wins pn ms of
        Inl err \<Rightarrow> Inl err
      | Inr wins \<Rightarrow>
          Inr \<lparr>player_name = pn,
               PlayerMatchHistory.matches = ms,
               h2h_records = h2h,
               PlayerMatchHistory.total_matches = int (length ms),
               win_count = wins,
               loss_count = int (length ms) - wins,
               date_range_days = days,
               tournaments =
                 set_order R (remdups (filter (\<lambda>n. n \<noteq> []) (map league_name ms))),
               opponents = set_order R (remdups (map (opponent_of pn) ms))\<rparr>)"

record TournamentData =
  tournament_id :: string
  tournament_name :: string
  matches :: "EventSummary list"
  players :: "Player list"
  total_matches :: int
  completed_matches :: int
  live_matches :: int
  upcoming_matches :: int
  date_range :: "datetime option \<times> datetime option"
  has_odds_data :: bool

definition completion_rate :: "runtime \<Rightarrow> TournamentData \<Rightarrow> error + rat" where
  "completion_rate R t =
     (if TournamentData.total_matches t = 0 then Inr 0
      else py_truediv (float_round R) (completed_matches t) (TournamentData.total_matches t))"

text \<open>The roster: each player once, by id, in order of first appearance.\<close>

fun collect_players :: "Player list \<Rightarrow> Player list \<Rightarrow> string set \<Rightarrow> Player list" where
  "collect_players [] acc seen_player_ids = acc"
| "collect_players (p # ps) acc seen_player_ids =
     (if id_P p \<notin> seen_player_ids
      then collect_players ps (acc @ [p]) (insert (id_P p) seen_player_ids)
      else collect_players ps acc seen_player_ids)"

text \<open>\<open>[match.event_datetime for match in matches if match.event_datetime]\<close>; a datetime is always true.\<close>

fun event_dates :: "runtime \<Rightarrow> EventSummary list \<Rightarrow> error + datetime list" where
  "event_dates R [] = Inr []"
| "event_dates R (m # ms) =
     (case event_datetime R m of
        Inl err \<Rightarrow> Inl err
      | Inr d \<Rightarrow>
          (case event_dates R ms of
             Inl err \<Rightarrow> Inl err
           | Inr ds \<Rightarrow> Inr (d # ds)))"

definition tournament_from_matches ::
  "runtime \<Rightarrow> string \<Rightarrow> string \<Rightarrow> EventSummary list \<Rightarrow> bool \<Rightarrow> error + TournamentData" where
  "tournament_from_matches R tid tname ms odds =
     (let completed = int (length (filter is_finished ms));
          live = int (length (filter is_live ms));
          upcoming = int (length (filter is_scheduled ms));
          roster = collect_players (concat (map (\<lambda>m. [home_player m, away_player m]) ms)) [] {}
      in case event_dates R ms of
           Inl err \<Rightarrow> Inl err
         | Inr dates \<Rightarrow>
             Inr \<lparr>tournament_id = tid,
                  tournament_name = tname,
                  TournamentData.matches = ms,
                  players = roster,
                  TournamentData.total_matches = int (length ms),
                  completed_matches = completed,
                  live_matches = live,
                  upcoming_matches = upcoming,
                  date_range =
                    (if dates = [] then (None, None)
                     else (Some (fold min dates (hd dates)), Some (fold max dates (hd dates)))),
                  has_odds_data = odds\<rparr>)"

section \<open>The Endpoint Client and the calls issued to it\<close>

text \<open>
  The remote API is a state machine of unknown state \<open>'s\<close>: each request returns a reply
  or raises, and may change the state. \<open>list_events\<close> covers the request and the parsing
  of one page of a listing; \<open>now\<close> is the wall clock. Every request that is issued is
  recorded, with its reply, in the \<open>trace\<close> of the world. Printing is not modelled.
\<close>

datatype endpoint = Ended | Upcoming | Inplay

datatype call =
    ListCall endpoint int "error + APIResponse"
  | ViewCall "string list" "error + Event list"
  | OddsCall string "error + json_dict"

record 's client =
  list_events :: "endpoint \<Rightarrow> int \<Rightarrow> 's \<Rightarrow> (error + APIResponse) \<times> 's"
  event_view :: "string list \<Rightarrow> 's \<Rightarrow> (error + Event list) \<times> 's"
  odds_summary :: "string \<Rightarrow> 's \<Rightarrow> (error + json_dict) \<times> 's"
  now :: "'s \<Rightarrow> datetime"

record 's world =
  remote :: 's
  trace :: "call list"

text \<open>\<open>get_ended\<close>, \<open>get_upcoming\<close> and \<open>get_inplay\<close> differ in the endpoint only.\<close>

definition get_listing ::
  "'s client \<Rightarrow> endpoint \<Rightarrow> int \<Rightarrow> 's world \<Rightarrow> (error + APIResponse) \<times> 's world" where
  "get_listing C ep pg w =
     (if pg < 1 then (Inl (ValueError ''Page number must be >= 1''), w)
      else case list_events C ep pg (remote w) of
             (r, s') \<Rightarrow> (r, \<lparr>remote = s', trace = trace w @ [ListCall ep pg r]\<rparr>))"

definition get_ended :: "'s client \<Rightarrow> int \<Rightarrow> 's world \<Rightarrow> (error + APIResponse) \<times> 's world" where
  "get_ended C pg w = get_listing C Ended pg w"

definition get_upcoming :: "'s client \<Rightarrow> int \<Rightarrow> 's world \<Rightarrow> (error + APIResponse) \<times> 's world" where
  "get_upcoming C pg w = get_listing C Upcoming pg w"

definition get_inplay :: "'s client \<Rightarrow> int \<Rightarrow> 's world \<Rightarrow> (error + APIResponse) \<times> 's world" where
  "get_inplay C pg w = get_listing C Inplay pg w"


definition get_summary ::
  "'s client \<Rightarrow> string \<Rightarrow> 's world \<Rightarrow> (error + json_dict) \<times> 's world" where
  "get_summary C event_id w =
     (case odds_summary C event_id (remote w) of
        (r, s') \<Rightarrow> (r, \<lparr>remote = s', trace = trace w @ [OddsCall event_id r]\<rparr>))"

text \<open>An identifier is a string or an int; \<open>str()\<close> normalises it.\<close>

datatype ident = StrId string | IntId int

fun str_of_nat :: "nat \<Rightarrow> string" where
  "str_of_nat n =
     (if n < 10 then [char_of (48 + n)]
      else str_of_nat (n div 10) @ [char_of (48 + n mod 10)])"

declare str_of_nat.simps [simp del]

fun py_str :: "ident \<Rightarrow> string" where
  "py_str (StrId s) = s"
| "py_str (IntId i) = (if i < 0 then CHR ''-'' # str_of_nat (nat (- i)) else str_of_nat (nat i))"

text \<open>Truth value of an identifier: a non-empty string, a non-zero int.\<close>

fun ident_truthy :: "ident \<Rightarrow> bool" where
  "ident_truthy (StrId s) = (s \<noteq> [])"
| "ident_truthy (IntId i) = (i \<noteq> 0)"

section \<open>Player History Aggregator (\<open>managers.py\<close>)\<close>

text \<open>
  A datetime counts microseconds. The wall clock lies far from \<open>datetime.min\<close>, so
  subtracting a window of at most 730 days stays in range.
\<close>

definition timedelta_days :: "int \<Rightarrow> int" where
  "timedelta_days d = d * 86400000000"

text \<open>
  The body of the \<open>for event in response.results\<close> loop of \<open>_get_recent_player_matches\<close>:
  the player's matches of one page that are not older than the cutoff. Reading the
  datetime of one of the player's matches may raise.
\<close>

fun player_page_matches ::
  "runtime \<Rightarrow> string \<Rightarrow> datetime \<Rightarrow> EventSummary list \<Rightarrow> error + EventSummary list" where
  "player_page_matches R pn cutoff_date [] = Inr []"
| "player_page_matches R pn cutoff_date (event # evs) =
     (if name (home_player event) = pn \<or> name (away_player event) = pn then
        (case event_datetime R event of
           Inl err \<Rightarrow> Inl err
         | Inr d \<Rightarrow>
             (case player_page_matches R pn cutoff_date evs of
                Inl err \<Rightarrow> Inl err
              | Inr ms \<Rightarrow> Inr (if d \<ge> cutoff_date then event # ms else ms)))
      else player_page_matches R pn cutoff_date evs)"

text \<open>
  The \<open>while page <= max_pages\<close> loop. Any exception inside the \<open>try\<close> leaves the loop
  with what was accumulated on earlier pages.
\<close>

function recent_loop ::
  "'s client \<Rightarrow> runtime \<Rightarrow> string \<Rightarrow> datetime \<Rightarrow> int \<Rightarrow> int \<Rightarrow> EventSummary list \<Rightarrow> 's world
     \<Rightarrow> EventSummary list \<times> 's world" where
  "recent_loop C R pn cutoff_date max_pages pg ms w =
     (if pg \<le> max_pages then
        (case get_ended C pg w of
           (Inl err, w') \<Rightarrow> (ms, w')
         | (Inr response, w') \<Rightarrow>
             (case player_page_matches R pn cutoff_date (results response) of
                Inl err \<Rightarrow> (ms, w')
              | Inr page_matches \<Rightarrow>
                  if page_matches = [] \<and> pg > 1 then (ms @ page_matches, w')
                  else (case pagination response of
                          None \<Rightarrow> (ms @ page_matches, w')
                        | Some pager \<Rightarrow>
                            (case has_next_page pager of
                               Inl err \<Rightarrow> (ms @ page_matches, w')
                             | Inr next_page \<Rightarrow>
                                 if \<not> next_page then (ms @ page_matches, w')
                                 else recent_loop C R pn cutoff_date max_pages (pg + 1)
                                        (ms @ page_matches) w'))))
      else (ms, w))"
  by pat_completeness auto
termination
  by (relation "measure (\<lambda>(C, R, pn, cutoff_date, max_pages, pg, ms, w). nat (max_pages + 1 - pg))")
     auto

declare recent_loop.simps [simp del]

definition get_recent_player_matches ::
  "'s client \<Rightarrow> runtime \<Rightarrow> string \<Rightarrow> int \<Rightarrow> int \<Rightarrow> 's world \<Rightarrow> EventSummary list \<times> 's world" where
  "get_recent_player_matches C R pn days max_pages w =
     recent_loop C R pn (now C (remote w) - timedelta_days days) max_pages 1 [] w"

definition get_h2h_matches ::
  "'s client \<Rightarrow> runtime \<Rightarrow> string \<Rightarrow> string \<Rightarrow> int \<Rightarrow> 's world \<Rightarrow> EventSummary list \<times> 's world" where
  "get_h2h_matches C R player1 player2 days w =
     (case get_recent_player_matches C R player1 days 5 w of
        (recent_matches, w') \<Rightarrow>
          (filter (\<lambda>m. opponent_of player1 m = player2) recent_matches, w'))"

text \<open>Removing duplicates: \<open>unique_matches[match.id] = match\<close> for each match, then the values.\<close>

definition unique_by_id :: "EventSummary list \<Rightarrow> EventSummary list" where
  "unique_by_id ms = dict_values (fold (\<lambda>m d. dict_set (id_E m) m d) ms [])"

fun h2h_loop ::
  "'s client \<Rightarrow> runtime \<Rightarrow> string \<Rightarrow> int \<Rightarrow> string list \<Rightarrow> (string \<times> EventSummary list) list
     \<Rightarrow> 's world \<Rightarrow> (string \<times> EventSummary list) list \<times> 's world" where
  "h2h_loop C R pn days [] recs w = (recs, w)"
| "h2h_loop C R pn days (opponent # rest) recs w =
     (case get_h2h_matches C R pn opponent (days * 2) w of
        (h2h_matches, w') \<Rightarrow>
          h2h_loop C R pn days rest
            (if h2h_matches \<noteq> [] then dict_set opponent h2h_matches recs else recs) w')"

definition get_player_history ::
  "'s client \<Rightarrow> runtime \<Rightarrow> string \<Rightarrow> int \<Rightarrow> bool \<Rightarrow> int \<Rightarrow> 's world
     \<Rightarrow> (error + PlayerMatchHistory) \<times> 's world" where
  "get_player_history C R pn days include_h2h max_pages w =
     (if pn = [] \<or> py_strip pn = [] then (Inl (ValueError ''player_name cannot be empty''), w)
      else if days < 1 \<or> days > 365 then (Inl (ValueError ''days must be between 1 and 365''), w)
      else if max_pages < 1 \<or> max_pages > 50
        then (Inl (ValueError ''max_pages must be between 1 and 50''), w)
      else
        (case get_recent_player_matches C R pn days max_pages w of
           (recent_matches, w1) \<Rightarrow>
             (let all_matches = unique_by_id recent_matches in
              case (if include_h2h \<and> all_matches \<noteq> []
                    then h2h_loop C R pn days
                           (take 10 (set_order R (remdups (map (opponent_of pn) all_matches))))
                           [] w1
                    else ([], w1)) of
                (h2h, w2) \<Rightarrow> (history_from_matches R pn all_matches h2h days, w2))))"

section \<open>Tournament Aggregator\<close>

text \<open>The \<open>if\<close>/\<open>elif\<close> chain on \<open>match_type\<close>; \<open>None\<close> is the final \<open>else: break\<close>.\<close>

definition fetch_by_type ::
  "'s client \<Rightarrow> string \<Rightarrow> int \<Rightarrow> 's world \<Rightarrow> ((error + APIResponse) \<times> 's world) option" where
  "fetch_by_type C match_type pg w =
     (if match_type = ''ended'' then Some (get_ended C pg w)
      else if match_type = ''upcoming'' then Some (get_upcoming C pg w)
      else if match_type = ''live'' then Some (get_inplay C pg w)
      else None)"

function tournament_loop ::
  "'s client \<Rightarrow> string \<Rightarrow> string \<Rightarrow> int \<Rightarrow> int \<Rightarrow> EventSummary list \<Rightarrow> 's world
     \<Rightarrow> EventSummary list \<times> 's world" where
  "tournament_loop C tid match_type max_pages pg ms w =
     (if pg \<le> max_pages then
        (case fetch_by_type C match_type pg w of
           None \<Rightarrow> (ms, w)
         | Some (Inl err, w') \<Rightarrow> (ms, w')
         | Some (Inr response, w') \<Rightarrow>
             (let tournament_matches = filter (\<lambda>event. league_id event = tid) (results response)
              in if tournament_matches = [] \<and> pg > 1 then (ms @ tournament_matches, w')
                 else (case pagination response of
                         None \<Rightarrow> (ms @ tournament_matches, w')
                       | Some pager \<Rightarrow>
                           (case has_next_page pager of
                              Inl err \<Rightarrow> (ms @ tournament_matches, w')
                            | Inr next_page \<Rightarrow>
                                if \<not> next_page then (ms @ tournament_matches, w')
                                else tournament_loop C tid match_type max_pages (pg + 1)
                                       (ms @ tournament_matches) w'))))
      else (ms, w))"
  by pat_completeness auto
termination
  by (relation "measure (\<lambda>(C, tid, match_type, max_pages, pg, ms, w). nat (max_pages + 1 - pg))")
     auto

declare tournament_loop.simps [simp del]

definition get_tournament_matches ::
  "'s client \<Rightarrow> string \<Rightarrow> string \<Rightarrow> int \<Rightarrow> 's world \<Rightarrow> EventSummary list \<times> 's world" where
  "get_tournament_matches C tid match_type max_pages w =
     tournament_loop C tid match_type max_pages 1 [] w"

text \<open>
  \<open>if xs and not tournament_name: tournament_name = xs[0].league_name\<close>, where a name
  that is \<open>None\<close> or empty counts as missing.
\<close>

definition name_from ::
  "EventSummary list \<Rightarrow> string option \<Rightarrow> string option" where
  "name_from xs found_name =
     (if xs \<noteq> [] \<and> (found_name = None \<or> found_name = Some [])
      then Some (league_name (hd xs)) else found_name)"

text \<open>
  The three partitions in fetch order, merged, with the tournament name found on the way.
\<close>

definition collect_partitions ::
  "'s client \<Rightarrow> string \<Rightarrow> int \<Rightarrow> 's world \<Rightarrow> (EventSummary list \<times> string option) \<times> 's world" where
  "collect_partitions C tid max_pages_per_type w =
     (case get_tournament_matches C tid ''ended'' max_pages_per_type w of
        (ended_ms, w1) \<Rightarrow>
          (case get_tournament_matches C tid ''upcoming'' max_pages_per_type w1 of
             (upcoming_ms, w2) \<Rightarrow>
               (case get_tournament_matches C tid ''live'' max_pages_per_type w2 of
                  (live_ms, w3) \<Rightarrow>
                    ((ended_ms @ upcoming_ms @ live_ms,
                      name_from live_ms
                        (name_from upcoming_ms (name_from ended_ms None))),
                     w3))))"

text \<open>Odds sampling: the number of sampled matches whose odds summary is a non-empty dict.\<close>

fun count_odds :: "'s client \<Rightarrow> EventSummary list \<Rightarrow> int \<Rightarrow> 's world \<Rightarrow> int \<times> 's world" where
  "count_odds C [] odds_found w = (odds_found, w)"
| "count_odds C (m # ms) odds_found w =
     (case get_summary C (id_E m) w of
        (Inl err, w') \<Rightarrow> count_odds C ms odds_found w'
      | (Inr odds, w') \<Rightarrow> count_odds C ms (if odds \<noteq> [] then odds_found + 1 else odds_found) w')"

text \<open>
  The closing report formats \<open>completion_rate\<close>, so an exception of that accessor would
  leave the call.
\<close>

definition get_tournament_complete ::
  "'s client \<Rightarrow> runtime \<Rightarrow> ident \<Rightarrow> bool \<Rightarrow> int \<Rightarrow> 's world
     \<Rightarrow> (error + TournamentData) \<times> 's world" where
  "get_tournament_complete C R t_id include_odds max_pages_per_type w =
     (if \<not> ident_truthy t_id \<or> py_strip (py_str t_id) = []
        then (Inl (ValueError ''tournament_id cannot be empty''), w)
      else if max_pages_per_type < 1 \<or> max_pages_per_type > 20
        then (Inl (ValueError ''max_pages_per_type must be between 1 and 20''), w)
      else
        (case collect_partitions C (py_str t_id) max_pages_per_type w of
           ((merged, found_name), w1) \<Rightarrow>
             (let all_matches = unique_by_id merged;
                  tname = (case found_name of
                             None \<Rightarrow> ''Tournament '' @ py_str t_id
                           | Some n \<Rightarrow> if n = [] then ''Tournament '' @ py_str t_id else n)
              in case (if include_odds \<and> all_matches \<noteq> []
                       then (case count_odds C (take 3 all_matches) 0 w1 of
                               (odds_found, w') \<Rightarrow> (odds_found > 0, w'))
                       else (False, w1)) of
                   (has_odds, w2) \<Rightarrow>
                     (case tournament_from_matches R (py_str t_id) tname all_matches has_odds of
                        Inl err \<Rightarrow> (Inl err, w2)
                      | Inr tournament_data \<Rightarrow>
                          (case completion_rate R tournament_data of
                             Inl err \<Rightarrow> (Inl err, w2)
                           | Inr rate \<Rightarrow> (Inr tournament_data, w2))))))"

section \<open>Bulk Event Resolver\<close>









section \<open>Observations on a trace\<close>



text \<open>The messages of the three parameter checks of \<open>get_player_history\<close>.\<close>

definition history_validation_errors :: "error set" where
  "history_validation_errors =
     {ValueError ''player_name cannot be empty'',
      ValueError ''days must be between 1 and 365'',
      ValueError ''max_pages must be between 1 and 50''}"

section \<open>Concrete inputs\<close>

definition alice :: Player where
  "alice = \<lparr>id_P = ''1'', name = ''A'', country_code = None, image_id = None\<rparr>"

definition bob :: Player where
  "bob = \<lparr>id_P = ''2'', name = ''B'', country_code = None, image_id = None\<rparr>"

text \<open>A match of A (home) against B in league 29128, with the given id, status and score.\<close>

definition match_of :: "string \<Rightarrow> string \<Rightarrow> string \<Rightarrow> EventSummary" where
  "match_of i status score =
     \<lparr>id_E = i, sport_id = ''92'', time = ''1753811400'', time_status = status,
      league_id = ''29128'', league_name = ''TT Cup'', league_country_code = None,
      home_player = alice, away_player = bob, current_score = score, game_scores = [],
      bet365_id = None, view_data = None, odds_data = None\<rparr>"

definition runtime0 :: runtime where
  "runtime0 = \<lparr>fromtimestamp = (\<lambda>t. Inr (t * 1000000)), set_order = (\<lambda>xs. xs),
               float_round = Some\<rparr>"

text \<open>A stateless remote API given by its pages; the clock stands a day after the matches.\<close>

definition client_of :: "(endpoint \<Rightarrow> int \<Rightarrow> error + APIResponse) \<Rightarrow> unit client" where
  "client_of pages =
     \<lparr>list_events = (\<lambda>ep pg s. (pages ep pg, s)),
      event_view = (\<lambda>ids s. (Inl (OtherException ''request failed''), s)),
      odds_summary = (\<lambda>i s. (Inr [], s)),
      now = (\<lambda>s. 1753900000000000)\<rparr>"

definition world0 :: "unit world" where
  "world0 = \<lparr>remote = (), trace = []\<rparr>"

definition one_page :: "EventSummary list \<Rightarrow> error + APIResponse" where
  "one_page evs =
     Inr \<lparr>results = evs,
          pagination = Some \<lparr>page = 1, per_page = 50, total_P = int (length evs)\<rparr>\<rparr>"

text \<open>A backend that contains the single finished match X.\<close>

definition only_x :: "endpoint \<Rightarrow> int \<Rightarrow> error + APIResponse" where
  "only_x ep pg =
     (if ep = Ended \<and> pg = 1 then one_page [match_of ''X'' ''3'' ''3-1''] else one_page [])"

text \<open>A backend whose single finished match has the score \<open>3-\<close>.\<close>

definition dash_page :: "endpoint \<Rightarrow> int \<Rightarrow> error + APIResponse" where
  "dash_page ep pg =
     (if ep = Ended \<and> pg = 1 then one_page [match_of ''X'' ''3'' ''3-''] else one_page [])"

text \<open>A backend that lists match X both as ended and as live.\<close>

definition twice_x :: "endpoint \<Rightarrow> int \<Rightarrow> error + APIResponse" where
  "twice_x ep pg =
     (if ep = Ended \<and> pg = 1 then one_page [match_of ''X'' ''3'' ''3-1'']
      else if ep = Inplay \<and> pg = 1 then one_page [match_of ''X'' ''2'' ''2-1'']
      else one_page [])"

definition page5 :: PaginationInfo where
  "page5 = \<lparr>page = 5, per_page = 50, total_P = 1722538\<rparr>"

definition history_of :: "int \<Rightarrow> int \<Rightarrow> PlayerMatchHistory" where
  "history_of wins n =
     \<lparr>player_name = ''A'', PlayerMatchHistory.matches = [], h2h_records = [],
      PlayerMatchHistory.total_matches = n, win_count = wins, loss_count = n - wins,
      date_range_days = 30, tournaments = [], opponents = []\<rparr>"

definition tournament_of :: "int \<Rightarrow> int \<Rightarrow> TournamentData" where
  "tournament_of done n =
     \<lparr>tournament_id = ''29128'', tournament_name = ''TT Cup'', TournamentData.matches = [],
      players = [], TournamentData.total_matches = n, completed_matches = done,
      live_matches = 0, upcoming_matches = n - done, date_range = (None, None),
      has_odds_data = False\<rparr>"

section \<open>Facts about the Python primitives\<close>

lemmas py_int_eval =
  py_int_def py_strip_def is_space_def is_digit_def int_max_str_digits_def
  nat_of_digits_def digit_val_def

lemma py_strip_empty: "py_strip [] = []"
  by (simp add: py_strip_def)



lemma py_split_nonempty: "py_split sep s \<noteq> []"
  by (cases s) auto

text \<open>A string that contains the separator splits into at least two parts.\<close>

lemma py_split_at_least_two:
  "sep \<in> set s \<Longrightarrow> \<exists>p0 p1 rest. py_split sep s = p0 # p1 # rest"
proof (induction s)
  case Nil
  then show ?case by simp
next
  case (Cons c cs)
  show ?case
  proof (cases "c = sep")
    case True
    obtain q qs where "py_split sep cs = q # qs"
      using py_split_nonempty [of sep cs] by (cases "py_split sep cs") auto
    then show ?thesis using True by simp
  next
    case False
    then have "sep \<in> set cs" using Cons.prems by simp
    then obtain p0 p1 rest where "py_split sep cs = p0 # p1 # rest"
      using Cons.IH by blast
    then show ?thesis using False by simp
  qed
qed

lemma ceil_div_pos:
  fixes t p :: int
  assumes "1 \<le> p"
  shows "(t + p - 1) div p = \<lceil>real_of_int t / real_of_int p\<rceil>"
proof -
  define n where "n = (t + p - 1) div p"
  have p: "0 < p" using assms by simp
  have eq: "t + p - 1 = p * n + (t + p - 1) mod p"
    unfolding n_def by simp
  have lo: "0 \<le> (t + p - 1) mod p" and hi: "(t + p - 1) mod p < p"
    using p by simp_all
  have up: "t \<le> n * p" using eq hi by (simp add: mult.commute)
  have dn: "(n - 1) * p < t" using eq lo by (simp add: algebra_simps)
  have "real_of_int ((n - 1) * p) < real_of_int t" using dn by linarith
  then have a: "real_of_int n - 1 < real_of_int t / real_of_int p"
    using p by (simp add: field_simps)
  have "real_of_int t \<le> real_of_int (n * p)" using up by linarith
  then have b: "real_of_int t / real_of_int p \<le> real_of_int n"
    using p by (simp add: field_simps)
  have "\<lceil>real_of_int t / real_of_int p\<rceil> = n"
    using a b by (rule ceiling_unique)
  then show ?thesis by (simp add: n_def)
qed

lemma dict_set_map_fst:
  "set (map fst (dict_set k v d)) = insert k (set (map fst d))"
proof (induction d)
  case Nil
  then show ?case by simp
next
  case (Cons a d)
  obtain k' v' where a: "a = (k', v')" by (cases a)
  show ?case
  proof (cases "k' = k")
    case True
    then show ?thesis using a by simp
  next
    case False
    have "set (map fst (dict_set k v (a # d))) = insert k' (set (map fst (dict_set k v d)))"
      using a False by simp
    also have "\<dots> = insert k' (insert k (set (map fst d)))"
      using Cons.IH by simp
    finally show ?thesis using a by auto
  qed
qed

lemma dict_set_keys: "set (dict_keys (dict_set k v d)) = insert k (set (dict_keys d))"
  using dict_set_map_fst [of k v d] by (simp add: dict_keys_def)

lemma dict_set_distinct: "distinct (dict_keys d) \<Longrightarrow> distinct (dict_keys (dict_set k v d))"
proof (induction d)
  case Nil
  then show ?case by (simp add: dict_keys_def)
next
  case (Cons a d)
  obtain k' v' where a: "a = (k', v')" by (cases a)
  have "k' \<notin> set (dict_keys (dict_set k v d))" if "k' \<noteq> k"
    using Cons.prems a that by (simp add: dict_set_keys) (simp add: dict_keys_def)
  then show ?case using Cons a by (auto simp: dict_keys_def)
qed

lemma dict_set_entries: "set (dict_set k v d) \<subseteq> insert (k, v) (set d)"
  by (induction d) (auto split: if_splits)

lemma values_ids_are_keys:
  "\<forall>(k, e) \<in> set d. id_E e = k \<Longrightarrow> map id_E (dict_values d) = dict_keys d"
  by (induction d) (auto simp: dict_values_def dict_keys_def)

lemma distinct_count_one:
  "distinct (map f xs) \<Longrightarrow> x \<in> set xs \<Longrightarrow> length (filter (\<lambda>y. f y = f x) xs) = 1"
proof (induction xs)
  case Nil
  then show ?case by simp
next
  case (Cons a xs)
  show ?case
  proof (cases "f a = f x")
    case True
    then have "f x \<notin> f ` set xs" using Cons.prems(1) by simp
    then have "\<forall>y \<in> set xs. f y \<noteq> f x" by (metis image_eqI)
    then have "filter (\<lambda>y. f y = f x) xs = []" by (simp add: filter_empty_conv)
    then show ?thesis using True by simp
  next
    case False
    then have "x \<in> set xs" using Cons.prems(2) by auto
    then show ?thesis using Cons False by simp
  qed
qed

section \<open>Entity models\<close>

subsection \<open>Pagination\<close>

text \<open>
  C5. For a PaginationInfo with \<open>per_page \<ge> 1\<close> and \<open>total \<ge> 0\<close>, \<open>total_pages\<close> is
  the ceiling of \<open>total / per_page\<close>, and it is 0 exactly when \<open>total\<close> is 0. In
  particular, page 5 of 1722538 items at 50 per page has 34451 pages, a next page and a
  previous page.
\<close>

theorem total_pages_ceiling:
  "(1 \<le> per_page p \<and> 0 \<le> total_P p \<longrightarrow>
      total_pages p = Inr \<lceil>real_of_int (total_P p) / real_of_int (per_page p)\<rceil> \<and>
      (total_pages p = Inr 0 \<longleftrightarrow> total_P p = 0)) \<and>
   total_pages page5 = Inr 34451 \<and>
   has_next_page page5 = Inr True \<and>
   has_previous_page page5"
proof -
  have general: "total_pages p = Inr \<lceil>real_of_int (total_P p) / real_of_int (per_page p)\<rceil> \<and>
      (total_pages p = Inr 0 \<longleftrightarrow> total_P p = 0)"
    if h: "1 \<le> per_page p" "0 \<le> total_P p"
  proof -
    have tp: "total_pages p = Inr ((total_P p + per_page p - 1) div per_page p)"
      using h by (simp add: total_pages_def)
    have zero: "(total_P p + per_page p - 1) div per_page p = 0 \<longleftrightarrow> total_P p = 0"
    proof
      assume "(total_P p + per_page p - 1) div per_page p = 0"
      then have "total_P p + per_page p - 1 < per_page p"
        using h by (auto simp add: zdiv_eq_0_iff)
      then show "total_P p = 0" using h by simp
    next
      assume "total_P p = 0"
      then show "(total_P p + per_page p - 1) div per_page p = 0"
        using h by simp
    qed
    show ?thesis using tp zero ceil_div_pos [OF h(1), of "total_P p"] by simp
  qed
  have concrete: "total_pages page5 = Inr 34451"
    by (simp add: total_pages_def page5_def)
  have nxt: "has_next_page page5 = Inr True"
    by (simp add: has_next_page_def total_pages_def page5_def)
  have prv: "has_previous_page page5"
    by (simp add: has_previous_page_def page5_def)
  show ?thesis using general concrete nxt prv by blast
qed

theorem total_pages_ceiling_witness:
  "1 \<le> per_page page5 \<and> 0 \<le> total_P page5 \<and>
   total_pages page5 = Inr \<lceil>real_of_int (total_P page5) / real_of_int (per_page page5)\<rceil> \<and>
   (total_pages page5 = Inr 0 \<longleftrightarrow> total_P page5 = 0)"
proof -
  have h: "1 \<le> per_page page5 \<and> 0 \<le> total_P page5" by (simp add: page5_def)
  show ?thesis using h total_pages_ceiling [of page5] by blast
qed

subsection \<open>Win detection\<close>




text \<open>The only exception that the score parser raises is the \<open>ValueError\<close> of \<open>int()\<close>.\<close>

lemma sets_score_error: "sets_score e = Inl err \<Longrightarrow> err = int_literal_error"
proof -
  assume a: "sets_score e = Inl err"
  show ?thesis
  proof (cases "CHR ''-'' \<in> set (current_score e)")
    case False
    then show ?thesis using a by (simp add: sets_score_def)
  next
    case True
    then obtain p0 p1 rest where "py_split CHR ''-'' (current_score e) = p0 # p1 # rest"
      using py_split_at_least_two by blast
    then show ?thesis using a True
      by (auto simp: sets_score_def split: option.splits)
  qed
qed

lemma is_winner_error: "is_winner e n = Inl err \<Longrightarrow> err = int_literal_error"
  by (auto simp: is_winner_def split: if_splits sum.splits dest: sets_score_error)



text \<open>
  A finished match whose score has no dash has no winner; this is the malformed input that
  the fallback of \<open>sets_score\<close> covers.
\<close>

lemma is_winner_no_dash:
  "CHR ''-'' \<notin> set (current_score e) \<Longrightarrow> is_winner e n = Inr False"
  by (simp add: is_winner_def sets_score_def)

text \<open>
  C4. The claim: for a finished match with a malformed score, \<open>is_winner\<close> returns false
  and never raises. The code: for the finished match with score \<open>3-\<close> the second part
  is the empty string, \<open>int('')\<close> raises \<open>ValueError\<close>, and \<open>is_winner\<close> raises it.
\<close>

theorem is_winner_malformed_raises:
  "is_winner (match_of ''X'' ''3'' ''3-'') ''A'' = Inl int_literal_error"
  by (simp add: is_winner_def is_finished_def sets_score_def match_of_def py_int_eval)

subsection \<open>Aggregates\<close>

lemma count_wins_error: "count_wins pn ms = Inl err \<Longrightarrow> err = int_literal_error"
  by (induction ms) (auto split: sum.splits dest: is_winner_error)

lemma count_wins_bounds: "count_wins pn ms = Inr n \<Longrightarrow> 0 \<le> n \<and> n \<le> int (length ms)"
proof (induction ms arbitrary: n)
  case Nil
  then show ?case by simp
next
  case (Cons m ms)
  from Cons.prems obtain won k where
    k: "count_wins pn ms = Inr k" "n = (if won then 1 else 0) + k"
    by (auto split: sum.splits)
  from Cons.IH [OF k(1)] k(2) show ?case by (cases won) auto
qed

lemma history_from_matches_error:
  "history_from_matches R pn ms h2h days = Inl err \<Longrightarrow> err = int_literal_error"
  by (auto simp: history_from_matches_def split: sum.splits dest: count_wins_error)

text \<open>
  C7. With no matches \<open>win_rate\<close> is 0.0, and otherwise it is the quotient of
  \<open>win_count\<close> and \<open>total_matches\<close> as a float; likewise \<open>completion_rate\<close> with
  \<open>completed_matches\<close>; neither accessor raises \<open>ZeroDivisionError\<close>.
\<close>

theorem rates_guarded:
  "(PlayerMatchHistory.total_matches h = 0 \<longrightarrow> win_rate R h = Inr 0) \<and>
   (PlayerMatchHistory.total_matches h \<noteq> 0 \<longrightarrow>
      win_rate R h =
        (case float_round R (rat_of_int (win_count h) /
                             rat_of_int (PlayerMatchHistory.total_matches h)) of
           None \<Rightarrow> Inl OverflowError | Some q \<Rightarrow> Inr q)) \<and>
   win_rate R h \<noteq> Inl ZeroDivisionError \<and>
   (TournamentData.total_matches t = 0 \<longrightarrow> completion_rate R t = Inr 0) \<and>
   (TournamentData.total_matches t \<noteq> 0 \<longrightarrow>
      completion_rate R t =
        (case float_round R (rat_of_int (completed_matches t) /
                             rat_of_int (TournamentData.total_matches t)) of
           None \<Rightarrow> Inl OverflowError | Some q \<Rightarrow> Inr q)) \<and>
   completion_rate R t \<noteq> Inl ZeroDivisionError"
  by (auto simp: win_rate_def completion_rate_def py_truediv_def split: option.splits)

theorem rates_guarded_witness:
  "win_rate runtime0 (history_of 0 0) = Inr 0 \<and>
   win_rate runtime0 (history_of 1 2) = Inr (1 / 2) \<and>
   completion_rate runtime0 (tournament_of 0 0) = Inr 0 \<and>
   completion_rate runtime0 (tournament_of 3 4) = Inr (3 / 4)"
proof -
  have z: "PlayerMatchHistory.total_matches (history_of 0 0) = 0 \<and>
           TournamentData.total_matches (tournament_of 0 0) = 0"
    by (simp add: history_of_def tournament_of_def)
  have n: "PlayerMatchHistory.total_matches (history_of 1 2) \<noteq> 0 \<and>
           TournamentData.total_matches (tournament_of 3 4) \<noteq> 0"
    by (simp add: history_of_def tournament_of_def)
  show ?thesis
    using z n
      rates_guarded [of "history_of 0 0" runtime0 "tournament_of 0 0"]
      rates_guarded [of "history_of 1 2" runtime0 "tournament_of 3 4"]
    by (simp add: history_of_def tournament_of_def runtime0_def)
qed

text \<open>
  C8. Every PlayerMatchHistory that \<open>from_matches\<close> produces has
  \<open>win_count + loss_count = total_matches\<close> and \<open>total_matches = len(matches)\<close>.
\<close>

theorem history_counts:
  "history_from_matches R pn ms h2h days = Inr h \<Longrightarrow>
     win_count h + loss_count h = PlayerMatchHistory.total_matches h \<and>
     PlayerMatchHistory.total_matches h = int (length (PlayerMatchHistory.matches h))"
  by (auto simp: history_from_matches_def split: sum.splits)

theorem history_counts_witness:
  "\<exists>h. history_from_matches runtime0 ''A''
          [match_of ''X'' ''3'' ''3-1'', match_of ''Y'' ''3'' ''1-3''] [] 30 = Inr h \<and>
        win_count h = 1 \<and>
        win_count h + loss_count h = PlayerMatchHistory.total_matches h \<and>
        PlayerMatchHistory.total_matches h = int (length (PlayerMatchHistory.matches h))"
proof -
  have "\<exists>h. history_from_matches runtime0 ''A''
          [match_of ''X'' ''3'' ''3-1'', match_of ''Y'' ''3'' ''1-3''] [] 30 = Inr h \<and>
        win_count h = 1"
    by (simp add: history_from_matches_def is_winner_def is_finished_def sets_score_def
          match_of_def alice_def bob_def py_int_eval)
  then obtain h where h: "history_from_matches runtime0 ''A''
          [match_of ''X'' ''3'' ''3-1'', match_of ''Y'' ''3'' ''1-3''] [] 30 = Inr h"
    "win_count h = 1"
    by blast
  from history_counts [OF h(1)] h show ?thesis by blast
qed

text \<open>The three status counts never exceed the number of matches.\<close>

lemma status_counts_le:
  "length (filter is_finished ms) + length (filter is_live ms) + length (filter is_scheduled ms)
     \<le> length ms"
  by (induction ms) (auto simp: is_finished_def is_live_def is_scheduled_def)

text \<open>They add up to it when every status is one of \<open>0\<close>, \<open>1\<close>, \<open>2\<close>, \<open>3\<close>.\<close>

lemma status_counts_exact:
  "\<forall>m \<in> set ms. time_status m \<in> set [''0'', ''1'', ''2'', ''3''] \<Longrightarrow>
     length (filter is_finished ms) + length (filter is_live ms) + length (filter is_scheduled ms)
       = length ms"
  by (induction ms) (auto simp: is_finished_def is_live_def is_scheduled_def)

lemma tournament_counts_known_status:
  assumes "tournament_from_matches R tid tname ms odds = Inr t"
    and "\<forall>m \<in> set ms. time_status m \<in> set [''0'', ''1'', ''2'', ''3'']"
  shows "completed_matches t + live_matches t + upcoming_matches t
           = TournamentData.total_matches t"
proof -
  have "completed_matches t = int (length (filter is_finished ms))"
    "live_matches t = int (length (filter is_live ms))"
    "upcoming_matches t = int (length (filter is_scheduled ms))"
    "TournamentData.total_matches t = int (length ms)"
    using assms(1) by (auto simp: tournament_from_matches_def Let_def split: sum.splits)
  then show ?thesis using status_counts_exact [OF assms(2)] by simp
qed

text \<open>
  C1. The claim: whatever the \<open>time_status\<close> values, the completed, live and upcoming
  counts of a TournamentData built by \<open>from_matches\<close> add up to \<open>total_matches\<close>. The code:
  a match with \<open>time_status\<close> \<open>4\<close> is counted in \<open>total_matches\<close> and in none of the three.
\<close>

theorem tournament_counts_postponed:
  "\<exists>t. tournament_from_matches runtime0 ''29128'' ''TT Cup'' [match_of ''X'' ''4'' ''0-0''] False
          = Inr t \<and>
        completed_matches t + live_matches t + upcoming_matches t = 0 \<and>
        TournamentData.total_matches t = 1"
  by (simp add: tournament_from_matches_def is_finished_def is_live_def is_scheduled_def
        match_of_def event_datetime_def py_int_eval runtime0_def)

section \<open>Bulk Event Resolver\<close>















section \<open>Tournament Aggregator\<close>

lemma fold_dict_set_inv:
  assumes "distinct (dict_keys d)" and "\<forall>(k, e) \<in> set d. id_E e = k \<and> e \<in> S"
    and "set ms \<subseteq> S"
  shows "distinct (dict_keys (fold (\<lambda>m d. dict_set (id_E m) m d) ms d)) \<and>
         (\<forall>(k, e) \<in> set (fold (\<lambda>m d. dict_set (id_E m) m d) ms d). id_E e = k \<and> e \<in> S) \<and>
         set (dict_keys (fold (\<lambda>m d. dict_set (id_E m) m d) ms d)) = set (dict_keys d) \<union> id_E ` set ms"
  using assms
proof (induction ms arbitrary: d)
  case Nil
  then show ?case by simp
next
  case (Cons m ms)
  let ?d = "dict_set (id_E m) m d"
  have d: "distinct (dict_keys ?d)" using Cons.prems(1) by (rule dict_set_distinct)
  have v: "\<forall>(k, e) \<in> set ?d. id_E e = k \<and> e \<in> S"
    using Cons.prems(2,3) dict_set_entries [of "id_E m" m d] by auto
  have s: "set ms \<subseteq> S" using Cons.prems(3) by simp
  from Cons.IH [OF d v s] show ?case by (auto simp: dict_set_keys)
qed

lemma unique_by_id_spec:
  "distinct (map id_E (unique_by_id ms)) \<and>
   set (unique_by_id ms) \<subseteq> set ms \<and>
   id_E ` set (unique_by_id ms) = id_E ` set ms"
proof -
  let ?d = "fold (\<lambda>m d. dict_set (id_E m) m d) ms []"
  have inv: "distinct (dict_keys ?d) \<and> (\<forall>(k, e) \<in> set ?d. id_E e = k \<and> e \<in> set ms) \<and>
             set (dict_keys ?d) = set (dict_keys []) \<union> id_E ` set ms"
    using fold_dict_set_inv [of "[]" "set ms" ms] by (simp add: dict_keys_def)
  then have ids: "map id_E (dict_values ?d) = dict_keys ?d"
    by (intro values_ids_are_keys) auto
  have sub: "set (dict_values ?d) \<subseteq> set ms"
    using inv by (auto simp: dict_values_def)
  have keys: "set (dict_keys ?d) = id_E ` set ms"
    using inv by (simp add: dict_keys_def)
  have "id_E ` set (dict_values ?d) = set (map id_E (dict_values ?d))"
    by simp
  then have img: "id_E ` set (dict_values ?d) = id_E ` set ms"
    unfolding ids keys .
  have dist: "distinct (map id_E (dict_values ?d))"
    unfolding ids using inv by blast
  show ?thesis unfolding unique_by_id_def using dist sub img by blast
qed

lemma tournament_from_matches_matches:
  "tournament_from_matches R tid tname ms odds = Inr td \<Longrightarrow> TournamentData.matches td = ms"
  by (auto simp: tournament_from_matches_def Let_def split: sum.splits)

lemma get_tournament_complete_matches:
  assumes "fst (get_tournament_complete C R t_id io mp w) = Inr td"
  shows "TournamentData.matches td = unique_by_id (fst (fst (collect_partitions C (py_str t_id) mp w)))"
proof -
  obtain merged found_name w1 where
    cp: "collect_partitions C (py_str t_id) mp w = ((merged, found_name), w1)"
    by (cases "collect_partitions C (py_str t_id) mp w") auto
  define tname where "tname =
    (case found_name of None \<Rightarrow> ''Tournament '' @ py_str t_id
     | Some n \<Rightarrow> if n = [] then ''Tournament '' @ py_str t_id else n)"
  obtain has_odds w2 where od:
    "(if io \<and> unique_by_id merged \<noteq> []
      then (case count_odds C (take 3 (unique_by_id merged)) 0 w1 of
              (odds_found, w') \<Rightarrow> (odds_found > 0, w'))
      else (False, w1)) = (has_odds, w2)"
    by (cases "(if io \<and> unique_by_id merged \<noteq> []
      then (case count_odds C (take 3 (unique_by_id merged)) 0 w1 of
              (odds_found, w') \<Rightarrow> (odds_found > 0, w'))
      else (False, w1))")
  have valid: "\<not> (\<not> ident_truthy t_id \<or> py_strip (py_str t_id) = [])" "\<not> (mp < 1 \<or> mp > 20)"
    using assms by (auto simp: get_tournament_complete_def split: if_splits)
  have unfold: "get_tournament_complete C R t_id io mp w =
      (case tournament_from_matches R (py_str t_id) tname (unique_by_id merged) has_odds of
         Inl err \<Rightarrow> (Inl err, w2)
       | Inr tournament_data \<Rightarrow>
           (case completion_rate R tournament_data of
              Inl err \<Rightarrow> (Inl err, w2)
            | Inr rate \<Rightarrow> (Inr tournament_data, w2)))"
    unfolding get_tournament_complete_def Let_def cp
    using valid od by (simp add: tname_def)
  have "tournament_from_matches R (py_str t_id) tname (unique_by_id merged) has_odds = Inr td"
    using assms unfolding unfold by (auto split: sum.splits)
  then have "TournamentData.matches td = unique_by_id merged"
    by (rule tournament_from_matches_matches)
  then show ?thesis using cp by simp
qed

lemmas tournament_eval =
  get_tournament_complete_def collect_partitions_def get_tournament_matches_def
  tournament_loop.simps fetch_by_type_def get_ended_def get_upcoming_def get_inplay_def
  get_listing_def client_of_def twice_x_def one_page_def world0_def match_of_def
  has_next_page_def total_pages_def name_from_def unique_by_id_def dict_values_def
  tournament_from_matches_def event_datetime_def py_int_eval runtime0_def
  completion_rate_def py_truediv_def is_finished_def is_live_def is_scheduled_def

text \<open>
  C9. The merged match list of \<open>get_tournament_complete\<close> is deduplicated by id: the ids
  in the resulting \<open>matches\<close> are pairwise distinct, every result is one of the fetched
  matches, and every match that a partition returned is represented exactly once, also
  when two partitions returned it.
\<close>

theorem tournament_matches_deduplicated:
  assumes "fst (get_tournament_complete C R t_id io mp w) = Inr td"
  shows "distinct (map id_E (TournamentData.matches td)) \<and>
         set (TournamentData.matches td) \<subseteq> set (fst (fst (collect_partitions C (py_str t_id) mp w))) \<and>
         (\<forall>m \<in> set (fst (fst (collect_partitions C (py_str t_id) mp w))).
            length (filter (\<lambda>x. id_E x = id_E m) (TournamentData.matches td)) = 1)"
proof -
  let ?merged = "fst (fst (collect_partitions C (py_str t_id) mp w))"
  have m: "TournamentData.matches td = unique_by_id ?merged"
    using assms by (rule get_tournament_complete_matches)
  have u: "distinct (map id_E (unique_by_id ?merged))"
    "set (unique_by_id ?merged) \<subseteq> set ?merged"
    "id_E ` set (unique_by_id ?merged) = id_E ` set ?merged"
    using unique_by_id_spec [of ?merged] by blast+
  have "length (filter (\<lambda>x. id_E x = id_E m) (unique_by_id ?merged)) = 1" if "m \<in> set ?merged" for m
  proof -
    from that have "id_E m \<in> id_E ` set (unique_by_id ?merged)" using u(3) by blast
    then obtain x where x: "x \<in> set (unique_by_id ?merged)" "id_E x = id_E m"
      by force
    from distinct_count_one [OF u(1) x(1)] x(2) show ?thesis by simp
  qed
  then have "\<forall>m \<in> set ?merged.
      length (filter (\<lambda>x. id_E x = id_E m) (unique_by_id ?merged)) = 1"
    by blast
  then show ?thesis unfolding m using u(1,2) by blast
qed

theorem tournament_matches_deduplicated_witness:
  "\<exists>td. fst (get_tournament_complete (client_of twice_x) runtime0 (StrId ''29128'') False 10
               world0) = Inr td \<and>
         map id_E (fst (fst (collect_partitions (client_of twice_x) ''29128'' 10 world0)))
           = [''X'', ''X''] \<and>
         map id_E (TournamentData.matches td) = [''X''] \<and>
         distinct (map id_E (TournamentData.matches td)) \<and>
         (\<forall>m \<in> set (fst (fst (collect_partitions (client_of twice_x) ''29128'' 10 world0))).
            length (filter (\<lambda>x. id_E x = id_E m) (TournamentData.matches td)) = 1)"
proof -
  have merged:
    "map id_E (fst (fst (collect_partitions (client_of twice_x) ''29128'' 10 world0)))
       = [''X'', ''X'']"
    by (simp add: tournament_eval)
  have "\<exists>td. fst (get_tournament_complete (client_of twice_x) runtime0 (StrId ''29128'') False 10
               world0) = Inr td \<and>
         map id_E (TournamentData.matches td) = [''X'']"
    by (simp add: tournament_eval)
  then obtain td where td:
    "fst (get_tournament_complete (client_of twice_x) runtime0 (StrId ''29128'') False 10
               world0) = Inr td"
    "map id_E (TournamentData.matches td) = [''X'']"
    by auto
  have s: "py_str (StrId ''29128'') = ''29128''" by simp
  note d = tournament_matches_deduplicated [OF td(1), unfolded s]
  show ?thesis
    by (rule exI [of _ td]) (use d merged td in simp)
qed

section \<open>Player History Aggregator\<close>

lemma player_history_rejected:
  assumes "py_strip pn = [] \<or> days < 1 \<or> 365 < days \<or> mp < 1 \<or> 50 < mp"
  shows "fst (get_player_history C R pn days h2h mp w) \<in> Inl ` history_validation_errors \<and>
         snd (get_player_history C R pn days h2h mp w) = w"
proof (cases "pn = [] \<or> py_strip pn = []")
  case True
  then show ?thesis
    by (simp add: get_player_history_def history_validation_errors_def)
next
  case name_ok: False
  show ?thesis
  proof (cases "days < 1 \<or> 365 < days")
    case True
    then show ?thesis using name_ok
      by (simp add: get_player_history_def history_validation_errors_def)
  next
    case False
    then have "mp < 1 \<or> 50 < mp" using assms name_ok by blast
    then show ?thesis using name_ok False
      by (simp add: get_player_history_def history_validation_errors_def)
  qed
qed

text \<open>
  Once the three checks pass, the call ends in \<open>from_matches\<close>: it returns a history or
  raises the \<open>ValueError\<close> of \<open>int()\<close>, and nothing else.
\<close>

lemma player_history_accepted:
  assumes "\<not> (py_strip pn = [] \<or> days < 1 \<or> 365 < days \<or> mp < 1 \<or> 50 < mp)"
  shows "(\<exists>h. fst (get_player_history C R pn days h2h mp w) = Inr h) \<or>
         fst (get_player_history C R pn days h2h mp w) = Inl int_literal_error"
proof -
  have name_ok: "pn \<noteq> [] \<and> py_strip pn \<noteq> []"
    using assms py_strip_empty by auto
  obtain recent w1 where r: "get_recent_player_matches C R pn days mp w = (recent, w1)"
    by (cases "get_recent_player_matches C R pn days mp w")
  obtain h2h_recs w2 where q:
    "(if h2h \<and> unique_by_id recent \<noteq> []
      then h2h_loop C R pn days
             (take 10 (set_order R (remdups (map (opponent_of pn) (unique_by_id recent))))) [] w1
      else ([], w1)) = (h2h_recs, w2)"
    by (cases "(if h2h \<and> unique_by_id recent \<noteq> []
      then h2h_loop C R pn days
             (take 10 (set_order R (remdups (map (opponent_of pn) (unique_by_id recent))))) [] w1
      else ([], w1))")
  have "get_player_history C R pn days h2h mp w =
          (history_from_matches R pn (unique_by_id recent) h2h_recs days, w2)"
    unfolding get_player_history_def Let_def r
    using assms name_ok q by simp
  then have f: "fst (get_player_history C R pn days h2h mp w) =
          history_from_matches R pn (unique_by_id recent) h2h_recs days"
    by simp
  show ?thesis
  proof (cases "history_from_matches R pn (unique_by_id recent) h2h_recs days")
    case (Inl err)
    then show ?thesis using f history_from_matches_error [OF Inl] by simp
  next
    case (Inr h)
    then show ?thesis using f by simp
  qed
qed

lemma int_literal_error_not_validation: "int_literal_error \<notin> history_validation_errors"
  by (simp add: int_literal_error_def history_validation_errors_def)

text \<open>
  C10. \<open>get_player_history\<close> raises one of its validation errors iff the player name is
  empty after trimming, or \<open>days\<close> is outside 1..365, or \<open>max_pages\<close> is outside 1..50;
  and then no request has been issued: the world, with its trace, is unchanged.
\<close>

theorem get_player_history_validation:
  "(fst (get_player_history C R pn days h2h mp w) \<in> Inl ` history_validation_errors \<longleftrightarrow>
      py_strip pn = [] \<or> days < 1 \<or> 365 < days \<or> mp < 1 \<or> 50 < mp) \<and>
   (py_strip pn = [] \<or> days < 1 \<or> 365 < days \<or> mp < 1 \<or> 50 < mp \<longrightarrow>
      snd (get_player_history C R pn days h2h mp w) = w)"
proof -
  let ?bad = "py_strip pn = [] \<or> days < 1 \<or> 365 < days \<or> mp < 1 \<or> 50 < mp"
  have a: "fst (get_player_history C R pn days h2h mp w) \<in> Inl ` history_validation_errors \<and>
           snd (get_player_history C R pn days h2h mp w) = w" if ?bad
    using that by (rule player_history_rejected)
  have b: "fst (get_player_history C R pn days h2h mp w) \<notin> Inl ` history_validation_errors"
    if "\<not> ?bad"
    using player_history_accepted [OF that, of C R h2h w] int_literal_error_not_validation
    by auto
  show ?thesis using a b by blast
qed

lemmas history_eval =
  get_player_history_def get_recent_player_matches_def recent_loop.simps
  get_ended_def get_listing_def client_of_def one_page_def world0_def
  match_of_def alice_def bob_def runtime0_def event_datetime_def py_int_eval timedelta_days_def
  has_next_page_def total_pages_def unique_by_id_def dict_values_def
  history_from_matches_def is_winner_def is_finished_def sets_score_def

theorem get_player_history_validation_witness:
  "fst (get_player_history (client_of only_x) runtime0 ''A'' 0 True 10 world0)
     \<in> Inl ` history_validation_errors \<and>
   snd (get_player_history (client_of only_x) runtime0 ''A'' 0 True 10 world0) = world0 \<and>
   fst (get_player_history (client_of only_x) runtime0 ''A'' 30 True 10 world0)
     \<notin> Inl ` history_validation_errors"
proof -
  have bad: "py_strip ''A'' = [] \<or> (0::int) < 1 \<or> 365 < (0::int) \<or> (10::int) < 1 \<or> 50 < (10::int)"
    by simp
  have good: "\<not> (py_strip ''A'' = [] \<or> (30::int) < 1 \<or> 365 < (30::int) \<or> (10::int) < 1 \<or> 50 < (10::int))"
    by (simp add: py_strip_def is_space_def)
  show ?thesis
    using bad good
      get_player_history_validation [of "client_of only_x" runtime0 "''A''" 0 True 10 world0]
      get_player_history_validation [of "client_of only_x" runtime0 "''A''" 30 True 10 world0]
    by blast
qed

text \<open>
  C3. The claim: once its parameters are valid, \<open>get_player_history\<close> returns a
  PlayerMatchHistory whatever the backend delivers. The code: when the ended listing
  holds a finished match of the player with the score \<open>3-\<close>, the fetch succeeds, and
  \<open>from_matches\<close>, which runs outside every \<open>try\<close>, raises the \<open>ValueError\<close> of
  \<open>is_winner\<close>.
\<close>

theorem player_history_propagates_int_error:
  "fst (get_player_history (client_of dash_page) runtime0 ''A'' 30 False 10 world0)
     = Inl int_literal_error"
  by (simp add: history_eval dash_page_def)

end
